theory Spec2Isabelle
  imports Main "HOL-Library.Multiset" "HOL-Library.AList" "HOL-Library.Sublist"
begin

section \<open>Errors, statements and the transactional resource\<close>

text \<open>
  The repository keeps several revisions of its files side by side. The definitions below
  embed the latest revision of each function: the migrator of \<^verbatim>\<open>src/function.go\<close> lines
  165-319 (the one with \<^verbatim>\<open>MaxVersion\<close> and the returned log), the queries and
  \<^verbatim>\<open>byVersion\<close> of \<^verbatim>\<open>src/unnamed/part_000\<close>, the script-backed record of
  \<^verbatim>\<open>src/unnamed/part_004\<close>, the action-backed record of \<^verbatim>\<open>src/function.go\<close> lines 1-23
  and the discovery code of \<^verbatim>\<open>src/dir.go\<close> lines 1-191.

  Go's \<^verbatim>\<open>int64\<close> versions are integers; the one subtraction of the code
  (\<^verbatim>\<open>migration.Version()-1\<close>) wraps as the machine does.

  Names follow the source. \<^verbatim>\<open>apply\<close> is \<open>apply_migration\<close> and \<^verbatim>\<open>Migrator.Upgrade\<close>
  is \<open>Migrator_Upgrade\<close>; the loops of \<^verbatim>\<open>UpgradeToVersion\<close>, \<^verbatim>\<open>groupByVersion\<close>,
  \<^verbatim>\<open>getFileMigration\<close> and \<^verbatim>\<open>getMigrations\<close> are \<open>apply_each\<close>, \<open>group_files\<close>,
  \<open>read_files\<close> and \<open>build_migrations\<close>.
\<close>

datatype error =
    MissingCurrentMigration
  | DowngradesUnsupported
  | MigrationVersionChanged
  | InitVersionMismatch
  | DuplicateMigrationError string int
  | MissingMigrationError string int
  | InvalidVersionError string
  | MixedExtensionsError int
  | NoDowngradeDefined int
  | ResourceError string

text \<open>
  A Go call either returns or leaves its caller by a runtime panic (a call of a nil function
  value) or by \<^verbatim>\<open>log.Fatalf\<close>, which ends the process.
\<close>

datatype 'a outcome = Return 'a | Panic | Fatal

text \<open>
  The statements the engine sends, by their SQL syntax: \<^verbatim>\<open>SELECT version FROM t LIMIT 1\<close>,
  \<^verbatim>\<open>UPDATE t SET version = v\<close>, \<^verbatim>\<open>CREATE TABLE t (version INTEGER)\<close>,
  \<^verbatim>\<open>INSERT INTO t (version) VALUES (v)\<close>, and the opaque body of a script-backed
  migration.
\<close>

datatype stmt =
    SelectVersion string
  | UpdateVersion string int
  | CreateTable string
  | InsertVersion string int
  | Script string

definition QueryGetCurrentVersion :: stmt where
  "QueryGetCurrentVersion = SelectVersion ''emigrate''"

definition QuerySetVersion :: "int \<Rightarrow> stmt" where
  "QuerySetVersion version = UpdateVersion ''emigrate'' version"

definition QueryCreateTable :: stmt where
  "QueryCreateTable = CreateTable ''emigrate''"

definition QueryInsertVersion :: stmt where
  "QueryInsertVersion = InsertVersion ''emigrate'' 0"

text \<open>
  The database handle (\<^verbatim>\<open>*sql.DB\<close>) and the transaction it opens (\<^verbatim>\<open>*sql.Tx\<close>) are
  an external collaborator: any state type with these five operations. The transaction the
  code holds in its local \<^verbatim>\<open>tx\<close> is the one most recently begun.
\<close>

record 's resource =
  db_Begin :: "'s \<Rightarrow> error option \<times> 's"
  db_QueryRow :: "stmt \<Rightarrow> 's \<Rightarrow> (error + int) \<times> 's"
  tx_Exec :: "stmt \<Rightarrow> 's \<Rightarrow> error option \<times> 's"
  tx_Commit :: "'s \<Rightarrow> error option \<times> 's"
  tx_Rollback :: "'s \<Rightarrow> error option \<times> 's"

text \<open>
  Every call that leaves the engine is recorded, in order: the calls on the resource and the
  calls of a migration's own actions (what \<^verbatim>\<open>mockMigration.called\<close> observes in the tests).
\<close>

datatype event =
    EvBegin
  | EvQueryRow stmt
  | EvExec stmt
  | EvCommit
  | EvRollback
  | EvUpgrade int
  | EvDowngrade int

type_synonym 's world = "event list \<times> 's"

fun Begin :: "'s resource \<Rightarrow> 's world \<Rightarrow> error option \<times> 's world" where
  "Begin D (tr, s) = (case db_Begin D s of (r, s') \<Rightarrow> (r, (tr @ [EvBegin], s')))"

fun QueryRow :: "'s resource \<Rightarrow> stmt \<Rightarrow> 's world \<Rightarrow> (error + int) \<times> 's world" where
  "QueryRow D q (tr, s) = (case db_QueryRow D q s of (r, s') \<Rightarrow> (r, (tr @ [EvQueryRow q], s')))"

fun Exec :: "'s resource \<Rightarrow> stmt \<Rightarrow> 's world \<Rightarrow> error option \<times> 's world" where
  "Exec D q (tr, s) = (case tx_Exec D q s of (r, s') \<Rightarrow> (r, (tr @ [EvExec q], s')))"

fun Commit :: "'s resource \<Rightarrow> 's world \<Rightarrow> error option \<times> 's world" where
  "Commit D (tr, s) = (case tx_Commit D s of (r, s') \<Rightarrow> (r, (tr @ [EvCommit], s')))"

fun Rollback :: "'s resource \<Rightarrow> 's world \<Rightarrow> error option \<times> 's world" where
  "Rollback D (tr, s) = (case tx_Rollback D s of (r, s') \<Rightarrow> (r, (tr @ [EvRollback], s')))"

section \<open>Migration records\<close>

text \<open>
  \<^verbatim>\<open>stringMigration\<close> holds two script bodies; \<^verbatim>\<open>functionMigration\<close> holds two Go
  function values, either of which may be nil (the tests build
  \<^verbatim>\<open>functionMigration{expected, nil, nil}\<close>). A function value acts on the transaction it
  is handed.
\<close>

type_synonym 's action = "'s \<Rightarrow> error option \<times> 's"

datatype 's Migration =
    StringMigration int string string
  | FunctionMigration int "'s action option" "'s action option"

fun Version :: "'s Migration \<Rightarrow> int" where
  "Version (StringMigration version up down) = version"
| "Version (FunctionMigration version up down) = version"

fun call_action :: "'s action option \<Rightarrow> 's world \<Rightarrow> error option outcome \<times> 's world" where
  "call_action None w = (Panic, w)"
| "call_action (Some f) (tr, s) = (case f s of (r, s') \<Rightarrow> (Return r, (tr, s')))"

fun Upgrade :: "'s resource \<Rightarrow> 's Migration \<Rightarrow> 's world \<Rightarrow> error option outcome \<times> 's world" where
  "Upgrade D (StringMigration version up down) (tr, s) =
     (case Exec D (Script up) (tr @ [EvUpgrade version], s) of (r, w) \<Rightarrow> (Return r, w))"
| "Upgrade D (FunctionMigration version up down) (tr, s) =
     call_action up (tr @ [EvUpgrade version], s)"

fun Downgrade :: "'s resource \<Rightarrow> 's Migration \<Rightarrow> 's world \<Rightarrow> error option outcome \<times> 's world" where
  "Downgrade D (StringMigration version up down) (tr, s) =
     (if down = [] then (Return (Some (NoDowngradeDefined version)), (tr @ [EvDowngrade version], s))
      else (case Exec D (Script down) (tr @ [EvDowngrade version], s) of (r, w) \<Rightarrow> (Return r, w)))"
| "Downgrade D (FunctionMigration version up down) (tr, s) =
     call_action down (tr @ [EvDowngrade version], s)"

section \<open>The migrator\<close>

definition int64 :: "int \<Rightarrow> int" where
  "int64 x = (x + 2 ^ 63) mod 2 ^ 64 - 2 ^ 63"

definition CurrentVersion :: "'s resource \<Rightarrow> 's world \<Rightarrow> (error + int) \<times> 's world" where
  "CurrentVersion D w = QueryRow D QueryGetCurrentVersion w"

definition setVersion :: "'s resource \<Rightarrow> int \<Rightarrow> 's world \<Rightarrow> error option \<times> 's world" where
  "setVersion D version w = Exec D (QuerySetVersion version) w"

definition MaxVersion :: "'s Migration list \<Rightarrow> int" where
  "MaxVersion ms = fold (\<lambda>migration mx. if Version migration \<ge> mx then Version migration else mx) ms 0"

text \<open>
  \<^verbatim>\<open>sort.Sort(byVersion(m.migrations))\<close>: ascending by version, in place. Records of equal
  version keep their order here, where Go promises no order among them; the sorted order of
  a set with distinct versions is the only one there is.
\<close>

definition sortByVersion :: "'s Migration list \<Rightarrow> 's Migration list" where
  "sortByVersion ms = sort_key Version ms"

text \<open>
  \<^verbatim>\<open>sort.Search(n, f)\<close> of the Go library: binary search for the least index in
  \<^verbatim>\<open>[0, n)\<close> at which \<^verbatim>\<open>f\<close> holds, \<^verbatim>\<open>n\<close> when there is none.
\<close>

function sort_Search_loop :: "(nat \<Rightarrow> bool) \<Rightarrow> nat \<Rightarrow> nat \<Rightarrow> nat" where
  "sort_Search_loop f i j =
     (if i < j then
        (let h = (i + j) div 2 in
         if \<not> f h then sort_Search_loop f (h + 1) j else sort_Search_loop f i h)
      else i)"
  by pat_completeness auto
termination
  by (relation "measure (\<lambda>(f, i, j). j - i)") auto

declare sort_Search_loop.simps [simp del]

definition sort_Search :: "nat \<Rightarrow> (nat \<Rightarrow> bool) \<Rightarrow> nat" where
  "sort_Search n f = sort_Search_loop f 0 n"

definition Search :: "'s Migration list \<Rightarrow> int \<Rightarrow> nat \<times> bool" where
  "Search a version =
     (let idx = sort_Search (length a) (\<lambda>i. Version (a ! i) \<ge> version) in
      if idx < length a \<and> Version (a ! idx) = version then (idx, True) else (idx, False))"

fun apply_migration :: "'s resource \<Rightarrow> 's Migration \<Rightarrow> 's world \<Rightarrow> error option outcome \<times> 's world" where
  "apply_migration D migration w =
     (case Begin D w of
        (Some err, w1) \<Rightarrow> (Return (Some err), w1)
      | (None, w1) \<Rightarrow>
          (case CurrentVersion D w1 of
             (Inl err, w2) \<Rightarrow> (Return (Some err), w2)
           | (Inr current, w2) \<Rightarrow>
               if current \<noteq> int64 (Version migration - 1) then (Return (Some MigrationVersionChanged), w2)
               else
                 (case Upgrade D migration w2 of
                    (Panic, w3) \<Rightarrow> (Panic, w3)
                  | (Fatal, w3) \<Rightarrow> (Fatal, w3)
                  | (Return (Some err), w3) \<Rightarrow> (Return (Some err), snd (Rollback D w3))
                  | (Return None, w3) \<Rightarrow>
                      (case setVersion D (Version migration) w3 of
                         (Some err, w4) \<Rightarrow> (Return (Some err), snd (Rollback D w4))
                       | (None, w4) \<Rightarrow>
                           (case Commit D w4 of
                              (Some err, w5) \<Rightarrow> (Return (Some err), snd (Rollback D w5))
                            | (None, w5) \<Rightarrow> (Return None, w5))))))"

datatype log_entry = AlreadyAtCurrentVersion | UpgradedToVersion int

text \<open>The loop of \<^verbatim>\<open>UpgradeToVersion\<close>: the first error ends it, and the log is dropped.\<close>

fun apply_each :: "'s resource \<Rightarrow> 's Migration list \<Rightarrow> log_entry list \<Rightarrow> 's world
    \<Rightarrow> (error + log_entry list) outcome \<times> 's world" where
  "apply_each D [] log w = (Return (Inr log), w)"
| "apply_each D (migration # rest) log w =
     (case apply_migration D migration w of
        (Panic, w') \<Rightarrow> (Panic, w')
      | (Fatal, w') \<Rightarrow> (Fatal, w')
      | (Return (Some err), w') \<Rightarrow> (Return (Inl err), w')
      | (Return None, w') \<Rightarrow> apply_each D rest (log @ [UpgradedToVersion (Version migration)]) w')"

text \<open>
  The result carries the owned slice as the call leaves it (the sort is in place) beside the
  returned pair.
\<close>

definition UpgradeToVersion :: "'s resource \<Rightarrow> 's Migration list \<Rightarrow> int \<Rightarrow> 's world
    \<Rightarrow> (error + log_entry list) outcome \<times> 's Migration list \<times> 's world" where
  "UpgradeToVersion D ms version w =
     (case CurrentVersion D w of
        (Inl err, w1) \<Rightarrow> (Return (Inl err), ms, w1)
      | (Inr current, w1) \<Rightarrow>
          if version < current then (Return (Inl DowngradesUnsupported), ms, w1)
          else if current = version then (Return (Inr [AlreadyAtCurrentVersion]), ms, w1)
          else
            (let sorted_ms = sortByVersion ms in
             if current > 0 then
               (case Search sorted_ms current of
                  (idx, ok) \<Rightarrow>
                    if \<not> ok then (Return (Inl MissingCurrentMigration), sorted_ms, w1)
                    else (case apply_each D (drop (idx + 1) sorted_ms) [] w1 of
                            (r, w2) \<Rightarrow> (r, sorted_ms, w2)))
             else (case apply_each D sorted_ms [] w1 of (r, w2) \<Rightarrow> (r, sorted_ms, w2))))"

definition Migrator_Upgrade :: "'s resource \<Rightarrow> 's Migration list \<Rightarrow> 's world
    \<Rightarrow> (error + log_entry list) outcome \<times> 's Migration list \<times> 's world" where
  "Migrator_Upgrade D ms w = (let maxVersion = MaxVersion ms in UpgradeToVersion D ms maxVersion w)"

definition Init :: "'s resource \<Rightarrow> 's world \<Rightarrow> error option \<times> 's world" where
  "Init D w =
     (case CurrentVersion D w of
        (Inr current, w1) \<Rightarrow> (None, w1)
      | (Inl err0, w1) \<Rightarrow>
          (case Begin D w1 of
             (Some err, w2) \<Rightarrow> (Some err, w2)
           | (None, w2) \<Rightarrow>
               (case Exec D QueryCreateTable w2 of
                  (Some err, w3) \<Rightarrow> (Some err, w3)
                | (None, w3) \<Rightarrow>
                    (case Exec D QueryInsertVersion w3 of
                       (Some err, w4) \<Rightarrow> (Some err, w4)
                     | (None, w4) \<Rightarrow>
                         (case Commit D w4 of
                            (Some err, w5) \<Rightarrow> (Some err, w5)
                          | (None, w5) \<Rightarrow>
                              (case CurrentVersion D w5 of
                                 (Inl err, w6) \<Rightarrow> (Some err, w6)
                               | (Inr current, w6) \<Rightarrow>
                                   if current \<noteq> 0 then (Some InitVersionMismatch, w6)
                                   else (None, w6)))))))"

section \<open>A store to run the engine against\<close>

text \<open>
  One instance of the resource, for the claims that speak of the stored value: tables of
  \<^verbatim>\<open>version\<close> rows, the committed ones and the working copy of the open transaction.
  \<^verbatim>\<open>db.QueryRow\<close> reads committed data; \<^verbatim>\<open>tx.Exec\<close> changes the working copy;
  \<^verbatim>\<open>Commit\<close> installs it and \<^verbatim>\<open>Rollback\<close> drops it. What a script body does to the
  tables is a parameter.
\<close>

type_synonym tables = "(string \<times> int list) list"

record store =
  committed :: tables
  working :: "tables option"

type_synonym script_semantics = "string \<Rightarrow> tables \<Rightarrow> error option \<times> tables"

fun sql_exec :: "script_semantics \<Rightarrow> stmt \<Rightarrow> tables \<Rightarrow> error option \<times> tables" where
  "sql_exec sem (CreateTable n) t =
     (case map_of t n of
        Some rows \<Rightarrow> (Some (ResourceError ''table already exists''), t)
      | None \<Rightarrow> (None, AList.update n [] t))"
| "sql_exec sem (InsertVersion n v) t =
     (case map_of t n of
        None \<Rightarrow> (Some (ResourceError ''no such table''), t)
      | Some rows \<Rightarrow> (None, AList.update n (rows @ [v]) t))"
| "sql_exec sem (UpdateVersion n v) t =
     (case map_of t n of
        None \<Rightarrow> (Some (ResourceError ''no such table''), t)
      | Some rows \<Rightarrow> (None, AList.update n (map (\<lambda>_. v) rows) t))"
| "sql_exec sem (SelectVersion n) t =
     (case map_of t n of
        None \<Rightarrow> (Some (ResourceError ''no such table''), t)
      | Some rows \<Rightarrow> (None, t))"
| "sql_exec sem (Script body) t = sem body t"

fun sql_query :: "stmt \<Rightarrow> tables \<Rightarrow> error + int" where
  "sql_query (SelectVersion n) t =
     (case map_of t n of
        None \<Rightarrow> Inl (ResourceError ''no such table'')
      | Some [] \<Rightarrow> Inl (ResourceError ''sql: no rows in result set'')
      | Some (v # rows) \<Rightarrow> Inr v)"
| "sql_query q t = Inl (ResourceError ''sql: no rows in result set'')"

definition store_Begin :: "store \<Rightarrow> error option \<times> store" where
  "store_Begin s = (None, s\<lparr>working := Some (committed s)\<rparr>)"

definition store_QueryRow :: "stmt \<Rightarrow> store \<Rightarrow> (error + int) \<times> store" where
  "store_QueryRow q s = (sql_query q (committed s), s)"

definition store_Exec :: "script_semantics \<Rightarrow> stmt \<Rightarrow> store \<Rightarrow> error option \<times> store" where
  "store_Exec sem q s =
     (case working s of
        None \<Rightarrow> (Some (ResourceError ''sql: transaction has already been committed or rolled back''), s)
      | Some t \<Rightarrow> (case sql_exec sem q t of (r, t') \<Rightarrow> (r, s\<lparr>working := Some t'\<rparr>)))"

definition store_Commit :: "store \<Rightarrow> error option \<times> store" where
  "store_Commit s =
     (case working s of
        None \<Rightarrow> (Some (ResourceError ''sql: transaction has already been committed or rolled back''), s)
      | Some t \<Rightarrow> (None, \<lparr>committed = t, working = None\<rparr>))"

definition store_Rollback :: "store \<Rightarrow> error option \<times> store" where
  "store_Rollback s =
     (case working s of
        None \<Rightarrow> (Some (ResourceError ''sql: transaction has already been committed or rolled back''), s)
      | Some t \<Rightarrow> (None, s\<lparr>working := None\<rparr>))"

definition store_resource :: "script_semantics \<Rightarrow> store resource" where
  "store_resource sem =
     \<lparr>db_Begin = store_Begin, db_QueryRow = store_QueryRow, tx_Exec = store_Exec sem,
      tx_Commit = store_Commit, tx_Rollback = store_Rollback\<rparr>"

text \<open>A script body that always succeeds and leaves the version table alone.\<close>

definition plain_scripts :: script_semantics where
  "plain_scripts body t = (None, t)"


definition at_version :: "int \<Rightarrow> store" where
  "at_version v = \<lparr>committed = [(''emigrate'', [v])], working = None\<rparr>"

definition fresh_store :: store where
  "fresh_store = \<lparr>committed = [], working = None\<rparr>"

section \<open>Discovery of script-backed migrations\<close>

text \<open>
  \<^verbatim>\<open>os.FileInfo\<close> as far as the code reads it, the two injected functions of
  \<^verbatim>\<open>migrationFinder\<close>, and \<^verbatim>\<open>nameInfo\<close>.
\<close>

record FileInfo =
  fi_Name :: string
  fi_IsDir :: bool

record migrationFinder =
  readDir :: "string \<Rightarrow> error + FileInfo list"
  readFile :: "string \<Rightarrow> error + string"

record nameInfo =
  ni_dir :: string
  ni_name :: string
  ni_version :: int
  ni_way :: string
  ni_ext :: string

text \<open>
  \<^verbatim>\<open>nameRegexp.FindStringSubmatch\<close> for the pattern
  \<^verbatim>\<open>^(\d+)[-_](up|down)\.([Ss][Qq][Ll])$\<close>: the three groups of a matching name.
\<close>

definition is_digit :: "char \<Rightarrow> bool" where
  "is_digit c = (c \<in> set ''0123456789'')"

definition match_way :: "string \<Rightarrow> (string \<times> string) option" where
  "match_way r =
     (if take 2 r = ''up'' then Some (''up'', drop 2 r)
      else if take 4 r = ''down'' then Some (''down'', drop 4 r)
      else None)"

definition match_ext :: "string \<Rightarrow> string option" where
  "match_ext r =
     (case r of
        [d, a, b, c] \<Rightarrow>
          if d = CHR ''.'' \<and> (a = CHR ''s'' \<or> a = CHR ''S'') \<and> (b = CHR ''q'' \<or> b = CHR ''Q'')
             \<and> (c = CHR ''l'' \<or> c = CHR ''L'')
          then Some [a, b, c] else None
      | _ \<Rightarrow> None)"

text \<open>What follows the digits: the separator, the direction, the dot and the extension.\<close>

definition match_tail :: "string \<Rightarrow> (string \<times> string) option" where
  "match_tail r =
     (case r of
        [] \<Rightarrow> None
      | sep # r1 \<Rightarrow>
          if sep \<noteq> CHR ''-'' \<and> sep \<noteq> CHR ''_'' then None
          else (case match_way r1 of
                  None \<Rightarrow> None
                | Some (way, r2) \<Rightarrow>
                    (case match_ext r2 of
                       None \<Rightarrow> None
                     | Some ext \<Rightarrow> Some (way, ext))))"

definition nameRegexp :: "string \<Rightarrow> (string \<times> string \<times> string) option" where
  "nameRegexp name =
     (let digits = takeWhile is_digit name in
      if digits = [] then None
      else (case match_tail (dropWhile is_digit name) of
              None \<Rightarrow> None
            | Some (way, ext) \<Rightarrow> Some (digits, way, ext)))"

text \<open>
  \<^verbatim>\<open>strconv.ParseInt(s, 10, 64)\<close> on a run of decimal digits: the value, or a range
  error past the largest \<^verbatim>\<open>int64\<close>.
\<close>

definition digit_value :: "char \<Rightarrow> nat" where
  "digit_value c = of_char c - 48"

definition decimal :: "string \<Rightarrow> nat" where
  "decimal s = fold (\<lambda>c n. 10 * n + digit_value c) s 0"

definition ParseInt :: "string \<Rightarrow> error + int" where
  "ParseInt s =
     (if int (decimal s) > 2 ^ 63 - 1 then Inl (ResourceError ''value out of range'')
      else Inr (int (decimal s)))"

definition parseNameInfo :: "string \<Rightarrow> string \<Rightarrow> error + nameInfo option" where
  "parseNameInfo d name =
     (case nameRegexp name of
        None \<Rightarrow> Inr None
      | Some (digits, way, ext) \<Rightarrow>
          (case ParseInt digits of
             Inl err \<Rightarrow> Inl (InvalidVersionError name)
           | Inr v \<Rightarrow>
               if v < 1 then Inl (InvalidVersionError name)
               else Inr (Some \<lparr>ni_dir = d, ni_name = name, ni_version = v, ni_way = way,
                                ni_ext = ext\<rparr>)))"

text \<open>
  The map \<^verbatim>\<open>map[int64][]*nameInfo\<close> is a list of its entries, a new key going last;
  \<^verbatim>\<open>names[k] = append(names[k], info)\<close> is \<open>append_entry\<close>.
\<close>

type_synonym nameInfos = "(int \<times> nameInfo list) list"

definition append_entry :: "nameInfos \<Rightarrow> int \<Rightarrow> nameInfo \<Rightarrow> nameInfos" where
  "append_entry names k info =
     AList.update k ((case map_of names k of None \<Rightarrow> [] | Some infos \<Rightarrow> infos) @ [info]) names"

fun group_files :: "string \<Rightarrow> FileInfo list \<Rightarrow> nameInfos \<Rightarrow> error + nameInfos" where
  "group_files d [] names = Inr names"
| "group_files d (f # files) names =
     (if fi_IsDir f then group_files d files names
      else (case parseNameInfo d (fi_Name f) of
              Inl err \<Rightarrow> Inl err
            | Inr None \<Rightarrow> group_files d files names
            | Inr (Some info) \<Rightarrow> group_files d files (append_entry names (ni_version info) info)))"

definition groupByVersion :: "migrationFinder \<Rightarrow> string \<Rightarrow> error + nameInfos" where
  "groupByVersion mf d =
     (case readDir mf d of
        Inl err \<Rightarrow> Inl err
      | Inr files \<Rightarrow> group_files d files [])"

text \<open>
  \<^verbatim>\<open>filepath.Join(info.dir, info.name)\<close>, without the cleaning of the joined path: the
  path only ever goes to the injected \<^verbatim>\<open>readFile\<close>.
\<close>

definition filepath_Join :: "string \<Rightarrow> string \<Rightarrow> string" where
  "filepath_Join d name = (if d = [] then name else d @ ''/'' @ name)"

text \<open>
  The loop of \<^verbatim>\<open>getFileMigration\<close> over the files of one version. Its state: the two
  bodies of \<^verbatim>\<open>m\<close>, \<^verbatim>\<open>seen["up"]\<close>, \<^verbatim>\<open>seen["down"]\<close> and \<^verbatim>\<open>ext\<close>.
\<close>

type_synonym file_state = "string \<times> string \<times> bool \<times> bool \<times> string"

fun read_files :: "migrationFinder \<Rightarrow> nameInfo list \<Rightarrow> file_state \<Rightarrow> (error + file_state) outcome" where
  "read_files mf [] st = Return (Inr st)"
| "read_files mf (info # rest) (up, down, seen_up, seen_down, ext) =
     (case readFile mf (filepath_Join (ni_dir info) (ni_name info)) of
        Inl err \<Rightarrow> Return (Inl err)
      | Inr contents \<Rightarrow>
          if ext \<noteq> [] \<and> ext \<noteq> ni_ext info then Return (Inl (MixedExtensionsError (ni_version info)))
          else if ni_way info = ''up'' then
            (if seen_up then Return (Inl (DuplicateMigrationError ''up'' (ni_version info)))
             else read_files mf rest (contents, down, True, seen_down, ni_ext info))
          else if ni_way info = ''down'' then
            (if seen_down then Return (Inl (DuplicateMigrationError ''down'' (ni_version info)))
             else read_files mf rest (up, contents, seen_up, True, ni_ext info))
          else Fatal)"

definition getFileMigration :: "migrationFinder \<Rightarrow> nameInfo list \<Rightarrow> (error + 's Migration) outcome" where
  "getFileMigration mf names =
     (if length names = 0 \<or> length names > 2 then Fatal
      else (case read_files mf names ([], [], False, False, []) of
              Panic \<Rightarrow> Panic
            | Fatal \<Rightarrow> Fatal
            | Return (Inl err) \<Rightarrow> Return (Inl err)
            | Return (Inr (up, down, seen_up, seen_down, ext)) \<Rightarrow>
                if \<not> seen_up then Return (Inl (MissingMigrationError ''up'' (ni_version (hd names))))
                else Return (Inr (StringMigration (ni_version (hd names)) up down))))"

fun build_migrations :: "migrationFinder \<Rightarrow> nameInfo list list \<Rightarrow> 's Migration list
    \<Rightarrow> (error + 's Migration list) outcome" where
  "build_migrations mf [] ms = Return (Inr ms)"
| "build_migrations mf (names # rest) ms =
     (case getFileMigration mf names of
        Panic \<Rightarrow> Panic
      | Fatal \<Rightarrow> Fatal
      | Return (Inl err) \<Rightarrow> Return (Inl err)
      | Return (Inr m) \<Rightarrow> build_migrations mf rest (ms @ [m]))"

text \<open>
  Go ranges over a map in an order of its own choosing: \<open>range_order\<close> is that choice, a
  rearrangement of the entries.
\<close>

definition getMigrations :: "(nameInfos \<Rightarrow> nameInfos) \<Rightarrow> migrationFinder \<Rightarrow> string
    \<Rightarrow> (error + 's Migration list) outcome" where
  "getMigrations range_order mf d =
     (case groupByVersion mf d of
        Inl err \<Rightarrow> Return (Inl err)
      | Inr nameInfos \<Rightarrow>
          (case build_migrations mf (map snd (range_order nameInfos)) [] of
             Return (Inr ms) \<Rightarrow> Return (Inr (sortByVersion ms))
           | other \<Rightarrow> other))"

text \<open>A directory of plain files, each with its body, as the tests' mock file system.\<close>

definition directory :: "string \<Rightarrow> (string \<times> string) list \<Rightarrow> migrationFinder" where
  "directory d files =
     \<lparr>readDir = (\<lambda>p. if p = d then Inr (map (\<lambda>(n, body). \<lparr>fi_Name = n, fi_IsDir = False\<rparr>) files)
                      else Inl (ResourceError ''Path not found'')),
      readFile = (\<lambda>p. case map_of (map (\<lambda>(n, body). (filepath_Join d n, body)) files) p of
                         None \<Rightarrow> Inl (ResourceError ''Path not found'')
                       | Some body \<Rightarrow> Inr body)\<rparr>"

section \<open>Earlier revisions kept beside the latest\<close>

text \<open>
  Where an earlier revision of a function differs in what the claims are about, it is
  embedded too, under the name of the function with \<open>_earlier\<close>:
  \<^verbatim>\<open>QuerySetVersion\<close> and \<^verbatim>\<open>Init\<close> of \<^verbatim>\<open>src/migration.go\<close>, the target of \<^verbatim>\<open>Upgrade\<close>
  in \<^verbatim>\<open>src/function.go\<close> lines 56-59 and \<^verbatim>\<open>nameRegexp\<close> of \<^verbatim>\<open>src/dir.go\<close> line 216,
  \<^verbatim>\<open>^(\d+)_(up|down).([Ss][Qq][Ll]-Z])$\<close>.
\<close>

definition QuerySetVersion_earlier :: "int \<Rightarrow> stmt" where
  "QuerySetVersion_earlier version = UpdateVersion ''migration'' version"

definition setVersion_earlier :: "'s resource \<Rightarrow> int \<Rightarrow> 's world \<Rightarrow> error option \<times> 's world" where
  "setVersion_earlier D version w = Exec D (QuerySetVersion_earlier version) w"

definition maxVersion_earlier :: "'s Migration list \<Rightarrow> int" where
  "maxVersion_earlier ms = int (length ms)"

definition match_ext_earlier :: "string \<Rightarrow> string option" where
  "match_ext_earlier r =
     (case r of
        [d, a, b, c, e, f, g] \<Rightarrow>
          if d \<noteq> CHR 0x0A \<and> (a = CHR ''s'' \<or> a = CHR ''S'') \<and> (b = CHR ''q'' \<or> b = CHR ''Q'')
             \<and> (c = CHR ''l'' \<or> c = CHR ''L'') \<and> e = CHR ''-'' \<and> f = CHR ''Z'' \<and> g = CHR '']''
          then Some [a, b, c, e, f, g] else None
      | _ \<Rightarrow> None)"

definition nameRegexp_earlier :: "string \<Rightarrow> (string \<times> string \<times> string) option" where
  "nameRegexp_earlier name =
     (let digits = takeWhile is_digit name in
      if digits = [] then None
      else (case dropWhile is_digit name of
              [] \<Rightarrow> None
            | sep # r1 \<Rightarrow>
                if sep \<noteq> CHR ''_'' then None
                else (case match_way r1 of
                        None \<Rightarrow> None
                      | Some (way, r2) \<Rightarrow>
                          (case match_ext_earlier r2 of
                             None \<Rightarrow> None
                           | Some ext \<Rightarrow> Some (digits, way, ext)))))"

definition Init_earlier :: "'s resource \<Rightarrow> 's world \<Rightarrow> error option \<times> 's world" where
  "Init_earlier D w =
     (case Begin D w of
        (Some err, w1) \<Rightarrow> (Some err, w1)
      | (None, w1) \<Rightarrow>
          (case CurrentVersion D w1 of
             (Inr current, w2) \<Rightarrow> (None, w2)
           | (Inl err0, w2) \<Rightarrow>
               (case Exec D QueryCreateTable w2 of
                  (Some err, w3) \<Rightarrow> (Some err, w3)
                | (None, w3) \<Rightarrow>
                    (case setVersion_earlier D 0 w3 of
                       (Some err, w4) \<Rightarrow> (Some err, w4)
                     | (None, w4) \<Rightarrow>
                         (case Commit D w4 of
                            (Some err, w5) \<Rightarrow> (Some err, w5)
                          | (None, w5) \<Rightarrow>
                              (case CurrentVersion D w5 of
                                 (Inl err, w6) \<Rightarrow> (Some err, w6)
                               | (Inr current, w6) \<Rightarrow>
                                   if current \<noteq> 0 then (Some InitVersionMismatch, w6)
                                   else (None, w6)))))))"

section \<open>Notions the claims are stated with\<close>

text \<open>
  The highest version present among the owned records, 0 for an empty set: the target the
  specification gives \<^verbatim>\<open>Upgrade\<close>.
\<close>

definition highest_version :: "'s Migration list \<Rightarrow> int" where
  "highest_version ms = (if ms = [] then 0 else Max (Version ` set ms))"

text \<open>The calls of an \<^verbatim>\<open>Init\<close> that creates the table, in order.\<close>

definition Init_calls :: "event list" where
  "Init_calls = [EvQueryRow QueryGetCurrentVersion, EvBegin, EvExec QueryCreateTable,
     EvExec QueryInsertVersion, EvCommit, EvQueryRow QueryGetCurrentVersion]"

text \<open>
  A resource that counts the reads it has answered: the first one fails, every later one
  returns \<open>v\<close>, and every other call succeeds. With \<open>v\<close> other than 0 it stands for a second
  writer at work between the commit of \<^verbatim>\<open>Init\<close> and its last read.
\<close>

definition late_writer :: "int \<Rightarrow> nat resource" where
  "late_writer v =
     \<lparr>db_Begin = (\<lambda>n. (None, n)),
      db_QueryRow = (\<lambda>q n. (if n = 0 then Inl (ResourceError ''no such table'') else Inr v, Suc n)),
      tx_Exec = (\<lambda>q n. (None, n)),
      tx_Commit = (\<lambda>n. (None, n)),
      tx_Rollback = (\<lambda>n. (None, n))\<rparr>"

text \<open>
  The position of the record whose version is \<open>c\<close> in a list, and the records
  \<^verbatim>\<open>UpgradeToVersion\<close> is to apply when the current version is \<open>c\<close>: those after that
  position in the sorted set, the whole sorted set when \<open>c\<close> is not positive.
\<close>

definition found_position :: "'s Migration list \<Rightarrow> int \<Rightarrow> nat" where
  "found_position sm c = length (takeWhile (\<lambda>m. Version m \<noteq> c) sm)"

definition to_apply :: "'s Migration list \<Rightarrow> int \<Rightarrow> 's Migration list" where
  "to_apply ms c =
     (if 0 < c then drop (found_position (sortByVersion ms) c + 1) (sortByVersion ms)
      else sortByVersion ms)"

text \<open>
  The versions whose upgrade action was called, in the order of the calls, and the calls on
  the resource that a record's upgrade action is known to make.
\<close>

fun upgrade_calls :: "event list \<Rightarrow> int list" where
  "upgrade_calls [] = []"
| "upgrade_calls (EvUpgrade v # tr) = v # upgrade_calls tr"
| "upgrade_calls (e # tr) = upgrade_calls tr"

fun action_calls :: "'s Migration \<Rightarrow> event list" where
  "action_calls (StringMigration version up down) = [EvExec (Script up)]"
| "action_calls (FunctionMigration version up down) = []"


text \<open>Inputs for the examples: actions that fail, and small migration sets.\<close>

definition failing_action :: "string \<Rightarrow> 's action" where
  "failing_action msg s = (Some (ResourceError msg), s)"




definition three_scripts :: "store Migration list" where
  "three_scripts = [StringMigration 3 ''c'' [], StringMigration 1 ''a'' [], StringMigration 2 ''b'' []]"

definition gapped_scripts :: "store Migration list" where
  "gapped_scripts = [StringMigration 3 ''c'' [], StringMigration 1 ''a'' []]"




definition three_ups :: migrationFinder where
  "three_ups = directory ''migrations'' [(''003_up.sql'', ''c''), (''001_up.sql'', ''a''), (''002_up.sql'', ''b'')]"

section \<open>One migration in one transaction\<close>

lemma int64_small: "- (2 ^ 63) \<le> x \<Longrightarrow> x < 2 ^ 63 \<Longrightarrow> int64 x = x"
  by (simp add: int64_def)

text \<open>
  For every resource: when the transaction has begun and the version read inside
  \<^verbatim>\<open>apply\<close> is not the migration's version minus one, \<^verbatim>\<open>apply\<close> returns the
  version-changed error, and the begin and the read are its only calls: the upgrade action
  is not called, no version is written, and no rollback is sent.
\<close>

lemma apply_version_changed:
  assumes "db_Begin D s = (None, s1)"
    and "db_QueryRow D QueryGetCurrentVersion s1 = (Inr current, s2)"
    and "current \<noteq> int64 (Version migration - 1)"
  shows "apply_migration D migration (tr, s) =
           (Return (Some MigrationVersionChanged),
            (tr @ [EvBegin, EvQueryRow QueryGetCurrentVersion], s2))"
  using assms by (simp add: CurrentVersion_def)

theorem apply_version_changed_witness:
  "db_Begin (late_writer 7) 1 = (None, 1)
   \<and> db_QueryRow (late_writer 7) QueryGetCurrentVersion 1 = (Inr 7, 2)
   \<and> 7 \<noteq> int64 (Version (StringMigration 2 ''b'' [] :: nat Migration) - 1)
   \<and> apply_migration (late_writer 7) (StringMigration 2 ''b'' []) ([], 1)
       = (Return (Some MigrationVersionChanged),
          ([] @ [EvBegin, EvQueryRow QueryGetCurrentVersion], 2))"
proof -
  have b: "db_Begin (late_writer 7) 1 = (None, 1)" by (simp add: late_writer_def)
  have q: "db_QueryRow (late_writer 7) QueryGetCurrentVersion 1 = (Inr 7, 2)"
    by (simp add: late_writer_def)
  have n: "7 \<noteq> int64 (Version (StringMigration 2 ''b'' [] :: nat Migration) - 1)"
    by (simp add: int64_def)
  show ?thesis by (intro conjI b q n apply_version_changed [OF b q n])
qed

text \<open>
  Claim C10. When the transaction has begun and the read of the current version inside
  \<^verbatim>\<open>apply\<close> fails, \<^verbatim>\<open>apply\<close> returns that very error. The calls it made are the begin and
  the read and nothing else: no commit and no rollback, so the transaction stays open, and
  the resource is left in the state the failed read produced.
\<close>

theorem apply_reread_error_leaves_transaction_open:
  assumes "db_Begin D s = (None, s1)"
    and "db_QueryRow D QueryGetCurrentVersion s1 = (Inl err, s2)"
  shows "apply_migration D migration (tr, s) =
           (Return (Some err), (tr @ [EvBegin, EvQueryRow QueryGetCurrentVersion], s2))"
  using assms by (simp add: CurrentVersion_def)

theorem apply_reread_error_leaves_transaction_open_witness:
  "db_Begin (store_resource plain_scripts) fresh_store = (None, fresh_store\<lparr>working := Some []\<rparr>)
   \<and> db_QueryRow (store_resource plain_scripts) QueryGetCurrentVersion (fresh_store\<lparr>working := Some []\<rparr>)
       = (Inl (ResourceError ''no such table''), fresh_store\<lparr>working := Some []\<rparr>)
   \<and> apply_migration (store_resource plain_scripts) (StringMigration 1 ''CREATE TABLE invoice'' [])
         ([], fresh_store)
       = (Return (Some (ResourceError ''no such table'')),
          ([] @ [EvBegin, EvQueryRow QueryGetCurrentVersion], fresh_store\<lparr>working := Some []\<rparr>))"
proof -
  have b: "db_Begin (store_resource plain_scripts) fresh_store
             = (None, fresh_store\<lparr>working := Some []\<rparr>)"
    by (simp add: store_resource_def store_Begin_def fresh_store_def)
  have q: "db_QueryRow (store_resource plain_scripts) QueryGetCurrentVersion
             (fresh_store\<lparr>working := Some []\<rparr>)
             = (Inl (ResourceError ''no such table''), fresh_store\<lparr>working := Some []\<rparr>)"
    by (simp add: store_resource_def store_QueryRow_def fresh_store_def QueryGetCurrentVersion_def)
  show ?thesis
    by (intro conjI b q apply_reread_error_leaves_transaction_open [OF b q])
qed

text \<open>
  Claim C2, at a store whose version is 0 and a migration of version 2: the version is read
  again after the begin, the call fails with the version-changed error, the upgrade action is
  not called and no version is written; but no rollback is sent either, and the store still
  holds the working copy of the transaction that was begun.
\<close>

theorem apply_version_changed_sends_no_rollback:
  "apply_migration (store_resource plain_scripts) (StringMigration 2 ''ALTER TABLE invoice'' [])
     ([], at_version 0)
   = (Return (Some MigrationVersionChanged),
      ([EvBegin, EvQueryRow QueryGetCurrentVersion],
       \<lparr>committed = [(''emigrate'', [0])], working = Some [(''emigrate'', [0])]\<rparr>))"
  by (simp add: CurrentVersion_def store_resource_def store_Begin_def store_QueryRow_def
      at_version_def QueryGetCurrentVersion_def int64_def)

section \<open>Downgrade without a reverse step\<close>

lemma Downgrade_empty_body:
  "Downgrade D (StringMigration version up []) (tr, s)
     = (Return (Some (NoDowngradeDefined version)), (tr @ [EvDowngrade version], s))"
  by simp

text \<open>
  Claim C9, at an action-backed record whose \<^verbatim>\<open>down\<close> is nil: \<^verbatim>\<open>Downgrade\<close> calls the nil
  function value, so the call panics instead of returning an error. (The script-backed
  record with an empty \<^verbatim>\<open>down\<close> body returns the "no downgrade defined" error and sends
  nothing to the resource: \<open>Downgrade_empty_body\<close>.)
\<close>

theorem functionMigration_Downgrade_nil_panics:
  "Downgrade D (FunctionMigration version up None) (tr, s) = (Panic, (tr @ [EvDowngrade version], s))"
  by simp

section \<open>The version store\<close>

text \<open>
  Claim C6. On a store whose \<^verbatim>\<open>emigrate\<close> table holds a row, a transaction that runs
  \<^verbatim>\<open>setVersion(tx, v)\<close> and commits makes the next \<^verbatim>\<open>CurrentVersion\<close> return \<open>v\<close>: the
  update and the select address the same table.
\<close>

theorem setVersion_committed_is_read_back:
  assumes "map_of (committed s) ''emigrate'' = Some (c # rows)"
  shows "\<exists>w0 w1 w2 w3.
           Begin (store_resource sem) (tr, s) = (None, w0)
         \<and> setVersion (store_resource sem) v w0 = (None, w1)
         \<and> Commit (store_resource sem) w1 = (None, w2)
         \<and> CurrentVersion (store_resource sem) w2 = (Inr v, w3)"
  using assms
  by (simp add: store_resource_def store_Begin_def setVersion_def store_Exec_def
      QuerySetVersion_def store_Commit_def CurrentVersion_def store_QueryRow_def
      QueryGetCurrentVersion_def update_conv')

theorem setVersion_committed_is_read_back_witness:
  "map_of (committed (at_version 0)) ''emigrate'' = Some (0 # [])
   \<and> (\<exists>w0 w1 w2 w3.
           Begin (store_resource plain_scripts) ([], at_version 0) = (None, w0)
         \<and> setVersion (store_resource plain_scripts) 5 w0 = (None, w1)
         \<and> Commit (store_resource plain_scripts) w1 = (None, w2)
         \<and> CurrentVersion (store_resource plain_scripts) w2 = (Inr 5, w3))"
proof -
  have h: "map_of (committed (at_version 0)) ''emigrate'' = Some (0 # [])"
    by (simp add: at_version_def)
  show ?thesis
    by (intro conjI h setVersion_committed_is_read_back [OF h])
qed

section \<open>Initialisation\<close>

lemma Init_already_versioned:
  assumes "db_QueryRow D QueryGetCurrentVersion s = (Inr c, s1)"
  shows "Init D (tr, s) = (None, (tr @ [EvQueryRow QueryGetCurrentVersion], s1))"
  using assms by (simp add: Init_def CurrentVersion_def)

lemma Init_creates:
  assumes "db_QueryRow D QueryGetCurrentVersion s = (Inl err, s1)"
    and "db_Begin D s1 = (None, s2)"
    and "tx_Exec D QueryCreateTable s2 = (None, s3)"
    and "tx_Exec D QueryInsertVersion s3 = (None, s4)"
    and "tx_Commit D s4 = (None, s5)"
    and "db_QueryRow D QueryGetCurrentVersion s5 = (Inr c, s6)"
  shows "Init D (tr, s) =
           (if c = 0 then None else Some InitVersionMismatch, (tr @ Init_calls, s6))"
  using assms by (simp add: Init_def CurrentVersion_def Init_calls_def)

lemma Init_fresh_store:
  assumes "map_of (committed st) ''emigrate'' = None"
  shows "Init (store_resource sem) (tr, st) =
           (None, (tr @ Init_calls,
             \<lparr>committed = AList.update ''emigrate'' [0] (AList.update ''emigrate'' [] (committed st)),
              working = None\<rparr>))"
  using assms
  by (simp add: Init_def CurrentVersion_def Init_calls_def store_resource_def store_QueryRow_def
      QueryGetCurrentVersion_def store_Begin_def store_Exec_def QueryCreateTable_def
      QueryInsertVersion_def store_Commit_def update_conv')

lemma CurrentVersion_of_single_row:
  "CurrentVersion (store_resource sem) (tr,
      \<lparr>committed = AList.update ''emigrate'' [v] t, working = x\<rparr>)
   = (Inr v, (tr @ [EvQueryRow QueryGetCurrentVersion],
        \<lparr>committed = AList.update ''emigrate'' [v] t, working = x\<rparr>))"
  by (simp add: CurrentVersion_def store_resource_def store_QueryRow_def
      QueryGetCurrentVersion_def update_conv')

text \<open>
  Claim C5. (1) When the first read of the version succeeds, \<^verbatim>\<open>Init\<close> returns success and
  its only call is that read. (2) When the first read fails and the begin, the two statements
  and the commit succeed, \<^verbatim>\<open>Init\<close> has created the table and inserted 0 in one committed
  transaction, and it succeeds exactly when the read after the commit returns 0; any other
  value is the init-mismatch error. (3) On a store without the table, \<^verbatim>\<open>Init\<close> succeeds
  with exactly those calls, the next read of the version is 0, and a second \<^verbatim>\<open>Init\<close>
  succeeds with one read as its only call and leaves the store as it is.
\<close>

theorem Init_idempotent_and_reads_back_zero:
  "(\<forall>c s1. db_QueryRow D QueryGetCurrentVersion s = (Inr c, s1) \<longrightarrow>
       Init D (tr, s) = (None, (tr @ [EvQueryRow QueryGetCurrentVersion], s1)))
   \<and> (\<forall>err s1 s2 s3 s4 s5 c s6.
         db_QueryRow D QueryGetCurrentVersion s = (Inl err, s1)
         \<and> db_Begin D s1 = (None, s2)
         \<and> tx_Exec D QueryCreateTable s2 = (None, s3)
         \<and> tx_Exec D QueryInsertVersion s3 = (None, s4)
         \<and> tx_Commit D s4 = (None, s5)
         \<and> db_QueryRow D QueryGetCurrentVersion s5 = (Inr c, s6) \<longrightarrow>
         Init D (tr, s) = (if c = 0 then None else Some InitVersionMismatch, (tr @ Init_calls, s6)))
   \<and> (map_of (committed st) ''emigrate'' = None \<longrightarrow>
        (let st' = \<lparr>committed = AList.update ''emigrate'' [0]
                                  (AList.update ''emigrate'' [] (committed st)),
                     working = None\<rparr>
         in Init (store_resource sem) (tr', st) = (None, (tr' @ Init_calls, st'))
          \<and> CurrentVersion (store_resource sem) (tr' @ Init_calls, st')
              = (Inr 0, ((tr' @ Init_calls) @ [EvQueryRow QueryGetCurrentVersion], st'))
          \<and> Init (store_resource sem) (tr' @ Init_calls, st')
              = (None, ((tr' @ Init_calls) @ [EvQueryRow QueryGetCurrentVersion], st'))))"
proof (intro conjI allI impI)
  fix c s1
  assume "db_QueryRow D QueryGetCurrentVersion s = (Inr c, s1)"
  then show "Init D (tr, s) = (None, (tr @ [EvQueryRow QueryGetCurrentVersion], s1))"
    by (rule Init_already_versioned)
next
  fix err s1 s2 s3 s4 s5 c s6
  assume "db_QueryRow D QueryGetCurrentVersion s = (Inl err, s1)
         \<and> db_Begin D s1 = (None, s2)
         \<and> tx_Exec D QueryCreateTable s2 = (None, s3)
         \<and> tx_Exec D QueryInsertVersion s3 = (None, s4)
         \<and> tx_Commit D s4 = (None, s5)
         \<and> db_QueryRow D QueryGetCurrentVersion s5 = (Inr c, s6)"
  then show "Init D (tr, s) =
      (if c = 0 then None else Some InitVersionMismatch, (tr @ Init_calls, s6))"
    using Init_creates [of D s err s1 s2 s3 s4 s5 c s6 tr] by blast
next
  assume fresh: "map_of (committed st) ''emigrate'' = None"
  define st' where "st' = \<lparr>committed = AList.update ''emigrate'' [0]
                                  (AList.update ''emigrate'' [] (committed st)),
                     working = None\<rparr>"
  have a: "Init (store_resource sem) (tr', st) = (None, (tr' @ Init_calls, st'))"
    unfolding st'_def by (rule Init_fresh_store [OF fresh])
  have b: "CurrentVersion (store_resource sem) (tr' @ Init_calls, st')
              = (Inr 0, ((tr' @ Init_calls) @ [EvQueryRow QueryGetCurrentVersion], st'))"
    unfolding st'_def by (rule CurrentVersion_of_single_row)
  have c: "Init (store_resource sem) (tr' @ Init_calls, st')
              = (None, ((tr' @ Init_calls) @ [EvQueryRow QueryGetCurrentVersion], st'))"
    using b by (simp add: Init_def)
  show "let st' = \<lparr>committed = AList.update ''emigrate'' [0]
                                  (AList.update ''emigrate'' [] (committed st)),
                     working = None\<rparr>
         in Init (store_resource sem) (tr', st) = (None, (tr' @ Init_calls, st'))
          \<and> CurrentVersion (store_resource sem) (tr' @ Init_calls, st')
              = (Inr 0, ((tr' @ Init_calls) @ [EvQueryRow QueryGetCurrentVersion], st'))
          \<and> Init (store_resource sem) (tr' @ Init_calls, st')
              = (None, ((tr' @ Init_calls) @ [EvQueryRow QueryGetCurrentVersion], st'))"
    using a b c unfolding st'_def Let_def by (intro conjI)
qed

theorem Init_idempotent_and_reads_back_zero_witness:
  "db_QueryRow (late_writer 7) QueryGetCurrentVersion 1 = (Inr 7, 2)
   \<and> Init (late_writer 7) ([], 1) = (None, ([EvQueryRow QueryGetCurrentVersion], 2))
   \<and> db_QueryRow (late_writer 7) QueryGetCurrentVersion 0 = (Inl (ResourceError ''no such table''), 1)
   \<and> Init (late_writer 7) ([], 0) = (Some InitVersionMismatch, (Init_calls, 2))
   \<and> Init (late_writer 0) ([], 0) = (None, (Init_calls, 2))
   \<and> map_of (committed fresh_store) ''emigrate'' = None
   \<and> Init (store_resource plain_scripts) ([], fresh_store) = (None, (Init_calls, at_version 0))
   \<and> CurrentVersion (store_resource plain_scripts) (Init_calls, at_version 0)
         = (Inr 0, (Init_calls @ [EvQueryRow QueryGetCurrentVersion], at_version 0))
   \<and> Init (store_resource plain_scripts) (Init_calls, at_version 0)
         = (None, (Init_calls @ [EvQueryRow QueryGetCurrentVersion], at_version 0))"
proof -
  have a: "db_QueryRow (late_writer 7) QueryGetCurrentVersion 1 = (Inr 7, 2)"
    by (simp add: late_writer_def)
  have b: "db_QueryRow (late_writer 7) QueryGetCurrentVersion 0 = (Inl (ResourceError ''no such table''), 1)"
    by (simp add: late_writer_def)
  have c: "map_of (committed fresh_store) ''emigrate'' = None"
    by (simp add: fresh_store_def)
  have 1: "Init (late_writer 7) ([], 1) = (None, ([EvQueryRow QueryGetCurrentVersion], 2))"
    using Init_idempotent_and_reads_back_zero [of "late_writer 7" 1 "[]"] a by simp
  have 2: "Init (late_writer 7) ([], 0) = (Some InitVersionMismatch, (Init_calls, 2))"
    using Init_idempotent_and_reads_back_zero [of "late_writer 7" 0 "[]"]
    by (simp add: late_writer_def)
  have 3: "Init (late_writer 0) ([], 0) = (None, (Init_calls, 2))"
    using Init_idempotent_and_reads_back_zero [of "late_writer 0" 0 "[]"]
    by (simp add: late_writer_def)
  have 4: "Init (store_resource plain_scripts) ([], fresh_store) = (None, (Init_calls, at_version 0))
   \<and> CurrentVersion (store_resource plain_scripts) (Init_calls, at_version 0)
         = (Inr 0, (Init_calls @ [EvQueryRow QueryGetCurrentVersion], at_version 0))
   \<and> Init (store_resource plain_scripts) (Init_calls, at_version 0)
         = (None, (Init_calls @ [EvQueryRow QueryGetCurrentVersion], at_version 0))"
    using Init_idempotent_and_reads_back_zero
            [of "late_writer 0" 0 "[]" fresh_store plain_scripts "[]"] c
    by (simp add: fresh_store_def at_version_def Let_def)
  show ?thesis using a b c 1 2 3 4 by blast
qed

section \<open>Upgrade to the latest version\<close>

lemma MaxVersion_fold:
  "fold (\<lambda>migration mx. if Version migration \<ge> mx then Version migration else mx) ms a
     = Max (set (a # map Version ms))"
proof -
  have eq: "(\<lambda>migration mx. if Version migration \<ge> mx then Version migration else mx)
          = max \<circ> Version"
    by (auto simp: fun_eq_iff max_def)
  have "fold (max \<circ> Version) ms a = fold max (map Version ms) a"
    by (simp add: fold_map)
  also have "\<dots> = Max (set (a # map Version ms))"
    by (rule Max.set_eq_fold [symmetric])
  finally show ?thesis unfolding eq .
qed

lemma MaxVersion_eq: "MaxVersion ms = max 0 (highest_version ms)"
proof (cases "ms = []")
  case True
  then show ?thesis by (simp add: MaxVersion_def highest_version_def)
next
  case False
  then have ne: "Version ` set ms \<noteq> {}" by simp
  have "MaxVersion ms = Max (insert 0 (Version ` set ms))"
    unfolding MaxVersion_def MaxVersion_fold by simp
  also have "\<dots> = max 0 (Max (Version ` set ms))"
    using ne by (intro Max_insert) simp_all
  finally show ?thesis using False by (simp add: highest_version_def)
qed

lemma highest_version_set: "set ms' = set ms \<Longrightarrow> highest_version ms' = highest_version ms"
  by (auto simp add: highest_version_def)

text \<open>
  Claim C4, as amended. \<^verbatim>\<open>Upgrade()\<close> is \<^verbatim>\<open>UpgradeToVersion(v)\<close> for \<open>v\<close> the larger of 0
  and the highest version present; that is the highest version present as soon as one
  record has a version that is not negative, and 0 for an empty set. The target depends on
  the set of records only, not on their order in the slice.
\<close>

theorem Upgrade_target_is_highest_version_or_zero:
  "Migrator_Upgrade D ms w = UpgradeToVersion D ms (max 0 (highest_version ms)) w
   \<and> ((\<exists>m \<in> set ms. 0 \<le> Version m) \<longrightarrow> max 0 (highest_version ms) = highest_version ms)
   \<and> (ms = [] \<longrightarrow> max 0 (highest_version ms) = 0)
   \<and> (set ms' = set ms \<longrightarrow> MaxVersion ms' = MaxVersion ms)"
proof (intro conjI impI)
  show "Migrator_Upgrade D ms w = UpgradeToVersion D ms (max 0 (highest_version ms)) w"
    by (simp add: Migrator_Upgrade_def MaxVersion_eq)
next
  assume "\<exists>m \<in> set ms. 0 \<le> Version m"
  then obtain m where m: "m \<in> set ms" "0 \<le> Version m" by blast
  then have "Version m \<le> Max (Version ` set ms)" by simp
  with m have "0 \<le> Max (Version ` set ms)" by linarith
  with m show "max 0 (highest_version ms) = highest_version ms"
    by (auto simp add: highest_version_def max_def)
next
  assume "ms = []"
  then show "max 0 (highest_version ms) = 0" by (simp add: highest_version_def)
next
  assume "set ms' = set ms"
  then have "highest_version ms' = highest_version ms"
    by (rule highest_version_set)
  then show "MaxVersion ms' = MaxVersion ms"
    by (simp only: MaxVersion_eq)
qed

theorem Upgrade_target_is_highest_version_or_zero_witness:
  "0 \<le> Version (StringMigration 3 ''c'' [] :: store Migration)
   \<and> Migrator_Upgrade (store_resource plain_scripts)
        [StringMigration 3 ''c'' [], StringMigration 1 ''a'' []] ([], at_version 0)
     = UpgradeToVersion (store_resource plain_scripts)
        [StringMigration 3 ''c'' [], StringMigration 1 ''a'' []] 3 ([], at_version 0)
   \<and> highest_version [StringMigration 3 ''c'' [], StringMigration 1 ''a'' [] :: store Migration] = 3"
  using Upgrade_target_is_highest_version_or_zero
         [of "store_resource plain_scripts"
             "[StringMigration 3 ''c'' [], StringMigration 1 ''a'' []]" "([], at_version 0)"]
  by (simp add: highest_version_def)

text \<open>
  The claim C4 as stated fails for a set whose versions are all negative: with the one
  record of version -3 on a store at version 0, \<^verbatim>\<open>Upgrade()\<close> is
  \<^verbatim>\<open>UpgradeToVersion(0)\<close> and reports that the database is at the current version, where
  \<^verbatim>\<open>UpgradeToVersion(-3)\<close> fails with the downgrades-unsupported error.
\<close>

theorem Upgrade_of_negative_versions_counterexample:
  "Migrator_Upgrade (store_resource plain_scripts)
       [StringMigration (- 3) ''DROP TABLE invoice'' []] ([], at_version 0)
   \<noteq> UpgradeToVersion (store_resource plain_scripts)
       [StringMigration (- 3) ''DROP TABLE invoice'' []]
       (highest_version [StringMigration (- 3) ''DROP TABLE invoice'' [] :: store Migration])
       ([], at_version 0)"
  by (simp add: Migrator_Upgrade_def MaxVersion_def UpgradeToVersion_def highest_version_def
    CurrentVersion_def store_resource_def store_QueryRow_def at_version_def QueryGetCurrentVersion_def)

section \<open>The binary search of the sorted set\<close>

lemma sort_Search_loop_correct:
  assumes "\<And>x y. x \<le> y \<Longrightarrow> y < n \<Longrightarrow> f x \<Longrightarrow> f y"
    and "i \<le> j" and "j \<le> n"
    and "\<And>x. x < i \<Longrightarrow> \<not> f x"
    and "\<And>x. j \<le> x \<Longrightarrow> x < n \<Longrightarrow> f x"
  shows "i \<le> sort_Search_loop f i j \<and> sort_Search_loop f i j \<le> j
       \<and> (\<forall>x < sort_Search_loop f i j. \<not> f x)
       \<and> (\<forall>x. sort_Search_loop f i j \<le> x \<and> x < n \<longrightarrow> f x)"
  using assms
proof (induction f i j rule: sort_Search_loop.induct)
  case (1 f i j)
  show ?case
  proof (cases "i < j")
    case False
    then have "sort_Search_loop f i j = i"
      by (subst sort_Search_loop.simps) simp
    with False "1.prems" show ?thesis by simp
  next
    case True
    define h where "h = (i + j) div 2"
    have h: "i \<le> h" "h < j" using True by (simp_all add: h_def)
    show ?thesis
    proof (cases "f h")
      case False
      have below: "\<And>x. x < h + 1 \<Longrightarrow> \<not> f x"
      proof -
        fix x assume "x < h + 1"
        then have "x \<le> h" by simp
        show "\<not> f x"
        proof
          assume "f x"
          with \<open>x \<le> h\<close> h "1.prems"(3) have "f h" using "1.prems"(1) [of x h] by simp
          with False show False by simp
        qed
      qed
      have "h + 1 \<le> sort_Search_loop f (h + 1) j \<and> sort_Search_loop f (h + 1) j \<le> j
       \<and> (\<forall>x < sort_Search_loop f (h + 1) j. \<not> f x)
       \<and> (\<forall>x. sort_Search_loop f (h + 1) j \<le> x \<and> x < n \<longrightarrow> f x)"
        using "1.IH"(1) [OF True h_def False "1.prems"(1)] h "1.prems"(3) below "1.prems"(5)
        by simp
      moreover have "sort_Search_loop f i j = sort_Search_loop f (h + 1) j"
        using True False by (subst sort_Search_loop.simps) (simp add: h_def Let_def)
      ultimately show ?thesis using h by simp
    next
      case fh: True
      have above: "\<And>x. h \<le> x \<Longrightarrow> x < n \<Longrightarrow> f x"
        using "1.prems"(1) fh by blast
      have "i \<le> sort_Search_loop f i h \<and> sort_Search_loop f i h \<le> h
       \<and> (\<forall>x < sort_Search_loop f i h. \<not> f x)
       \<and> (\<forall>x. sort_Search_loop f i h \<le> x \<and> x < n \<longrightarrow> f x)"
        using "1.IH"(2) [OF True h_def _ "1.prems"(1)] fh h "1.prems"(3) "1.prems"(4) above
        by simp
      moreover have "sort_Search_loop f i j = sort_Search_loop f i h"
        using True fh by (subst sort_Search_loop.simps) (simp add: h_def Let_def)
      ultimately show ?thesis using h by simp
    qed
  qed
qed

lemma sort_Search_sorted:
  fixes c :: int
  assumes "sorted (map Version a)"
  defines "k \<equiv> sort_Search (length a) (\<lambda>i. Version (a ! i) \<ge> c)"
  shows "k \<le> length a" and "\<And>j. j < k \<Longrightarrow> Version (a ! j) < c"
    and "\<And>j. k \<le> j \<Longrightarrow> j < length a \<Longrightarrow> c \<le> Version (a ! j)"
proof -
  define f where "f = (\<lambda>i. c \<le> Version (a ! i))"
  have k: "k = sort_Search_loop f 0 (length a)"
    by (simp add: k_def sort_Search_def f_def)
  have mono: "\<And>x y. x \<le> y \<Longrightarrow> y < length a \<Longrightarrow> f x \<Longrightarrow> f y"
  proof -
    fix x y assume xy: "x \<le> y" "y < length a" "f x"
    have "map Version a ! x \<le> map Version a ! y"
      using assms(1) xy(1,2) sorted_iff_nth_mono [of "map Version a"] by (metis length_map)
    with xy show "f y" by (simp add: f_def)
  qed
  have "0 \<le> sort_Search_loop f 0 (length a)
       \<and> sort_Search_loop f 0 (length a) \<le> length a
       \<and> (\<forall>x < sort_Search_loop f 0 (length a). \<not> f x)
       \<and> (\<forall>x. sort_Search_loop f 0 (length a) \<le> x \<and> x < length a \<longrightarrow> f x)"
  proof (rule sort_Search_loop_correct [where n = "length a"])
    show "\<And>x y. x \<le> y \<Longrightarrow> y < length a \<Longrightarrow> f x \<Longrightarrow> f y"
      by (rule mono)
  qed simp_all
  then have r: "k \<le> length a" "\<forall>x<k. \<not> f x" "\<forall>x. k \<le> x \<and> x < length a \<longrightarrow> f x"
    unfolding k by blast+
  show "k \<le> length a" by (rule r(1))
  show "\<And>j. j < k \<Longrightarrow> Version (a ! j) < c"
    using r(2) by (simp add: f_def not_le)
  show "\<And>j. k \<le> j \<Longrightarrow> j < length a \<Longrightarrow> c \<le> Version (a ! j)"
    using r(3) by (simp add: f_def)
qed

lemma Search_found:
  assumes "sorted (map Version a)" and "c \<in> Version ` set a"
  shows "Search a c = (found_position a c, True)"
proof -
  define k where "k = sort_Search (length a) (\<lambda>i. Version (a ! i) \<ge> c)"
  note k = sort_Search_sorted [OF assms(1), where c = c, folded k_def]
  from assms(2) obtain i where i: "i < length a" "Version (a ! i) = c"
    by (auto simp: in_set_conv_nth)
  have "k \<le> i" using k(2) [of i] i by (cases "k \<le> i") auto
  then have "k < length a" using i by simp
  have "c \<le> Version (a ! k)" using k(3) [of k] \<open>k < length a\<close> by simp
  moreover have "Version (a ! k) \<le> Version (a ! i)"
    using assms(1) \<open>k \<le> i\<close> i(1) sorted_iff_nth_mono [of "map Version a"] \<open>k < length a\<close>
    by (metis length_map nth_map)
  ultimately have eq: "Version (a ! k) = c" using i by simp
  have "takeWhile (\<lambda>m. Version m \<noteq> c) a = take k a"
  proof (rule takeWhile_eq_take_P_nth)
    show "\<And>j. j < k \<Longrightarrow> j < length a \<Longrightarrow> Version (a ! j) \<noteq> c"
      using k(2) by fastforce
    show "k < length a \<Longrightarrow> \<not> Version (a ! k) \<noteq> c" using eq by simp
  qed
  then have "found_position a c = k"
    using \<open>k < length a\<close> by (simp add: found_position_def)
  then show ?thesis
    using eq \<open>k < length a\<close> by (simp add: Search_def k_def Let_def)
qed

lemma Search_missing:
  assumes "c \<notin> Version ` set a"
  shows "snd (Search a c) = False"
proof -
  have "\<And>k. k < length a \<Longrightarrow> Version (a ! k) \<noteq> c"
    using assms nth_mem by fastforce
  then show ?thesis by (simp add: Search_def Let_def)
qed

section \<open>The calls of the apply loop\<close>

lemmas store_simps = store_resource_def store_Begin_def store_QueryRow_def store_Exec_def
  store_Commit_def store_Rollback_def at_version_def fresh_store_def plain_scripts_def
  CurrentVersion_def setVersion_def QueryGetCurrentVersion_def QuerySetVersion_def
  QueryCreateTable_def QueryInsertVersion_def int64_def

lemma upgrade_calls_append: "upgrade_calls (xs @ ys) = upgrade_calls xs @ upgrade_calls ys"
  by (induction xs rule: upgrade_calls.induct) simp_all

lemma upgrade_calls_action_calls: "upgrade_calls (action_calls m) = []"
  by (cases m) simp_all

lemma Upgrade_calls:
  assumes "Upgrade D m (tr, s) = (r, w')"
  shows "fst w' = tr @ EvUpgrade (Version m) # action_calls m"
proof (cases m)
  case (StringMigration v up down)
  with assms show ?thesis by (auto split: prod.splits)
next
  case (FunctionMigration v up down)
  with assms show ?thesis by (cases up) (auto split: prod.splits)
qed

lemma CurrentVersion_calls:
  assumes "CurrentVersion D (tr, s) = (r, w1)"
  shows "fst w1 = tr @ [EvQueryRow QueryGetCurrentVersion]"
  using assms by (auto simp: CurrentVersion_def split: prod.splits)

lemma apply_migration_calls:
  assumes "apply_migration D m (tr, s) = (r, w')"
  shows "\<exists>ev. fst w' = tr @ ev \<and> prefix (upgrade_calls ev) [Version m]
            \<and> (r = Return None \<longrightarrow> upgrade_calls ev = [Version m])"
proof -
  obtain r1 s1 where b: "db_Begin D s = (r1, s1)" by force
  obtain q s2 where q: "db_QueryRow D QueryGetCurrentVersion s1 = (q, s2)" by force
  obtain u tr3 s3 where u: "Upgrade D m (tr @ [EvBegin, EvQueryRow QueryGetCurrentVersion], s2) = (u, (tr3, s3))"
    by (metis surj_pair)
  have tr3: "tr3 = tr @ [EvBegin, EvQueryRow QueryGetCurrentVersion] @ EvUpgrade (Version m) # action_calls m"
    using Upgrade_calls [OF u] by simp
  obtain r4 s4 where e: "tx_Exec D (QuerySetVersion (Version m)) s3 = (r4, s4)" by force
  obtain r5 s5 where c: "tx_Commit D s4 = (r5, s5)" by force
  obtain r6 s6 where rb3: "tx_Rollback D s3 = (r6, s6)" by force
  obtain r7 s7 where rb4: "tx_Rollback D s4 = (r7, s7)" by force
  obtain r8 s8 where rb5: "tx_Rollback D s5 = (r8, s8)" by force
  show ?thesis
    using assms b q u e c rb3 rb4 rb5 unfolding tr3
    by (auto simp: CurrentVersion_def setVersion_def upgrade_calls_append upgrade_calls_action_calls
          split: option.splits sum.splits outcome.splits if_splits)
qed

lemma apply_each_calls:
  assumes "apply_each D sub log (tr, s) = (r, w')"
  shows "\<exists>ev. fst w' = tr @ ev \<and> prefix (upgrade_calls ev) (map Version sub)
            \<and> (\<forall>log'. r = Return (Inr log') \<longrightarrow>
                  upgrade_calls ev = map Version sub
                  \<and> log' = log @ map (\<lambda>m. UpgradedToVersion (Version m)) sub)"
  using assms
proof (induction sub arbitrary: log tr s)
  case Nil
  then show ?case by auto
next
  case (Cons m rest)
  obtain r1 tr1 s1 where a: "apply_migration D m (tr, s) = (r1, (tr1, s1))"
    by (metis surj_pair)
  from apply_migration_calls [OF a] obtain ev1 where ev1: "tr1 = tr @ ev1"
    "prefix (upgrade_calls ev1) [Version m]" "r1 = Return None \<longrightarrow> upgrade_calls ev1 = [Version m]"
    by auto
  have p1: "prefix (upgrade_calls ev1) (Version m # map Version rest)"
    using ev1(2) by (metis prefix_order.trans Cons_prefix_Cons prefix_code(1))
  show ?case
  proof (cases "r1 = Return None")
    case False
    then have "r = (case r1 of Return (Some err) \<Rightarrow> Return (Inl err) | Panic \<Rightarrow> Panic | Fatal \<Rightarrow> Fatal)"
      and "w' = (tr1, s1)"
      using Cons.prems a by (auto split: outcome.splits option.splits)
    then show ?thesis using ev1 p1 False
      by (auto split: outcome.splits option.splits)
  next
    case True
    then have "apply_each D rest (log @ [UpgradedToVersion (Version m)]) (tr1, s1) = (r, w')"
      using Cons.prems a by simp
    from Cons.IH [OF this] obtain ev2 where ev2: "fst w' = tr1 @ ev2"
      "prefix (upgrade_calls ev2) (map Version rest)"
      "\<forall>log'. r = Return (Inr log') \<longrightarrow> upgrade_calls ev2 = map Version rest
          \<and> log' = (log @ [UpgradedToVersion (Version m)]) @ map (\<lambda>m. UpgradedToVersion (Version m)) rest"
      by blast
    have "fst w' = tr @ (ev1 @ ev2)" using ev1 ev2 by simp
    moreover have "upgrade_calls (ev1 @ ev2) = Version m # upgrade_calls ev2"
      using ev1(3) True by (simp add: upgrade_calls_append)
    ultimately show ?thesis using ev2(2,3)
      by (intro exI [of _ "ev1 @ ev2"]) auto
  qed
qed


lemma sorted_to_apply: "sorted (map Version (to_apply ms c))"
proof -
  have "sorted (map Version (sortByVersion ms))" by (simp add: sortByVersion_def)
  then show ?thesis
    by (auto simp add: to_apply_def drop_map [symmetric] sorted_wrt_drop simp del: drop_map)
qed

lemma strictly_sorted_to_apply:
  assumes "distinct (map Version ms)"
  shows "sorted_wrt (<) (map Version (to_apply ms c))"
proof -
  have "mset (map Version (sortByVersion ms)) = mset (map Version ms)"
    by (simp add: sortByVersion_def)
  then have "distinct (map Version (sortByVersion ms))"
    using assms by (metis distinct_count_atmost_1 set_mset_mset)
  moreover have "sorted (map Version (sortByVersion ms))" by (simp add: sortByVersion_def)
  ultimately have "sorted_wrt (<) (map Version (sortByVersion ms))"
    by (simp add: strict_sorted_iff)
  then show ?thesis
    by (auto simp add: to_apply_def drop_map [symmetric] sorted_wrt_drop simp del: drop_map)
qed

lemma UpgradeToVersion_cases:
  assumes "CurrentVersion D w = (Inr c, w1)" and "c < target"
  shows "UpgradeToVersion D ms target w =
     (if 0 < c \<and> c \<notin> Version ` set ms
      then (Return (Inl MissingCurrentMigration), sortByVersion ms, w1)
      else (case apply_each D (to_apply ms c) [] w1 of (r, w2) \<Rightarrow> (r, sortByVersion ms, w2)))"
proof -
  have s: "sorted (map Version (sortByVersion ms))"
    by (simp add: sortByVersion_def)
  have v: "Version ` set (sortByVersion ms) = Version ` set ms"
    by (simp add: sortByVersion_def)
  show ?thesis
  proof (cases "0 < c")
    case False
    with assms show ?thesis by (simp add: UpgradeToVersion_def to_apply_def Let_def)
  next
    case True
    show ?thesis
    proof (cases "c \<in> Version ` set ms")
      case True
      then have "Search (sortByVersion ms) c = (found_position (sortByVersion ms) c, True)"
        using Search_found [OF s] v by blast
      with assms \<open>0 < c\<close> True show ?thesis
        by (simp add: UpgradeToVersion_def to_apply_def Let_def)
    next
      case False
      then have "snd (Search (sortByVersion ms) c) = False"
        using Search_missing v by blast
      then obtain idx where "Search (sortByVersion ms) c = (idx, False)"
        by (cases "Search (sortByVersion ms) c") auto
      with assms \<open>0 < c\<close> False show ?thesis
        by (simp add: UpgradeToVersion_def Let_def)
    qed
  qed
qed

text \<open>
  Claim C1, as amended. Let the read at the start of \<^verbatim>\<open>UpgradeToVersion(target)\<close> return
  \<open>c < target\<close>. If \<open>c > 0\<close> and no owned record has version \<open>c\<close>, the call fails with the
  missing-current-migration error and its only call on the resource is that read: no
  transaction is begun. Otherwise the call is the apply loop over the records after the
  position of \<open>c\<close> in the sorted set (the whole sorted set when \<open>c\<close> is not positive), which
  are in ascending version order, strictly when the versions of the set are distinct. The
  upgrade actions called are those of a leading part of that list, in order and once each;
  when the call succeeds they are those of the whole list and the log has one entry for
  each.
\<close>

theorem UpgradeToVersion_runs_what_follows_the_current_version:
  assumes "CurrentVersion D (tr, s) = (Inr c, w1)" and "c < target"
  shows
   "(0 < c \<and> c \<notin> Version ` set ms \<longrightarrow>
        UpgradeToVersion D ms target (tr, s)
          = (Return (Inl MissingCurrentMigration), sortByVersion ms, w1)
        \<and> fst w1 = tr @ [EvQueryRow QueryGetCurrentVersion])
    \<and> (\<not> (0 < c \<and> c \<notin> Version ` set ms) \<longrightarrow>
        (\<exists>r ev s2.
            UpgradeToVersion D ms target (tr, s) = (r, sortByVersion ms, (fst w1 @ ev, s2))
          \<and> apply_each D (to_apply ms c) [] w1 = (r, (fst w1 @ ev, s2))
          \<and> prefix (upgrade_calls ev) (map Version (to_apply ms c))
          \<and> (\<forall>log. r = Return (Inr log) \<longrightarrow>
                upgrade_calls ev = map Version (to_apply ms c)
                \<and> log = map (\<lambda>m. UpgradedToVersion (Version m)) (to_apply ms c))))
    \<and> sorted (map Version (to_apply ms c))
    \<and> (distinct (map Version ms) \<longrightarrow> sorted_wrt (<) (map Version (to_apply ms c)))"
proof (intro conjI impI)
  assume m: "0 < c \<and> c \<notin> Version ` set ms"
  then show "UpgradeToVersion D ms target (tr, s)
          = (Return (Inl MissingCurrentMigration), sortByVersion ms, w1)"
    using UpgradeToVersion_cases [OF assms, of ms] by simp
  show "fst w1 = tr @ [EvQueryRow QueryGetCurrentVersion]"
    by (rule CurrentVersion_calls [OF assms(1)])
next
  assume n: "\<not> (0 < c \<and> c \<notin> Version ` set ms)"
  obtain r w2 where a: "apply_each D (to_apply ms c) [] w1 = (r, w2)" by (metis surj_pair)
  have u: "UpgradeToVersion D ms target (tr, s) = (r, sortByVersion ms, w2)"
    using UpgradeToVersion_cases [OF assms, of ms] n a by simp
  obtain tr1 s1 where w1: "w1 = (tr1, s1)" by force
  from apply_each_calls [OF a [unfolded w1]] obtain ev where ev: "fst w2 = tr1 @ ev"
    "prefix (upgrade_calls ev) (map Version (to_apply ms c))"
    "\<forall>log'. r = Return (Inr log') \<longrightarrow> upgrade_calls ev = map Version (to_apply ms c)
        \<and> log' = [] @ map (\<lambda>m. UpgradedToVersion (Version m)) (to_apply ms c)"
    by blast
  have w2: "w2 = (fst w1 @ ev, snd w2)" using ev(1) w1 by (cases w2) simp
  show "\<exists>r ev s2.
            UpgradeToVersion D ms target (tr, s) = (r, sortByVersion ms, (fst w1 @ ev, s2))
          \<and> apply_each D (to_apply ms c) [] w1 = (r, (fst w1 @ ev, s2))
          \<and> prefix (upgrade_calls ev) (map Version (to_apply ms c))
          \<and> (\<forall>log. r = Return (Inr log) \<longrightarrow>
                upgrade_calls ev = map Version (to_apply ms c)
                \<and> log = map (\<lambda>m. UpgradedToVersion (Version m)) (to_apply ms c))"
    using u a ev(2,3) w2 by (intro exI [of _ r] exI [of _ ev] exI [of _ "snd w2"]) auto
next
  show "sorted (map Version (to_apply ms c))" by (rule sorted_to_apply)
next
  assume "distinct (map Version ms)"
  then show "sorted_wrt (<) (map Version (to_apply ms c))" by (rule strictly_sorted_to_apply)
qed

theorem UpgradeToVersion_runs_what_follows_the_current_version_witness:
  "CurrentVersion (store_resource plain_scripts) ([], at_version 1)
     = (Inr 1, ([EvQueryRow QueryGetCurrentVersion], at_version 1))
   \<and> (1::int) < 3
   \<and> to_apply three_scripts 1 = [StringMigration 2 ''b'' [], StringMigration 3 ''c'' []]
   \<and> (\<exists>r ev s2.
          UpgradeToVersion (store_resource plain_scripts) three_scripts 3 ([], at_version 1)
            = (r, sortByVersion three_scripts, ([EvQueryRow QueryGetCurrentVersion] @ ev, s2))
        \<and> prefix (upgrade_calls ev) [2, 3])
   \<and> sorted_wrt (<) (map Version (to_apply three_scripts 1))
   \<and> CurrentVersion (store_resource plain_scripts) ([], at_version 2)
     = (Inr 2, ([EvQueryRow QueryGetCurrentVersion], at_version 2))
   \<and> UpgradeToVersion (store_resource plain_scripts) gapped_scripts 3 ([], at_version 2)
     = (Return (Inl MissingCurrentMigration), sortByVersion gapped_scripts,
        ([EvQueryRow QueryGetCurrentVersion], at_version 2))"
proof -
  let ?D = "store_resource plain_scripts"
  have h1: "CurrentVersion ?D ([], at_version 1)
     = (Inr 1, ([EvQueryRow QueryGetCurrentVersion], at_version 1))"
    by (simp add: store_simps)
  have h2: "(1::int) < 3" by simp
  have t: "to_apply three_scripts 1 = [StringMigration 2 ''b'' [], StringMigration 3 ''c'' []]"
    by (simp add: to_apply_def three_scripts_def sortByVersion_def found_position_def)
  note T = UpgradeToVersion_runs_what_follows_the_current_version [OF h1 h2, of three_scripts]
  have n: "\<not> (0 < (1::int) \<and> 1 \<notin> Version ` set three_scripts)"
    by (simp add: three_scripts_def)
  have d: "distinct (map Version three_scripts)" by (simp add: three_scripts_def)
  from T n have "\<exists>r ev s2.
            UpgradeToVersion ?D three_scripts 3 ([], at_version 1)
              = (r, sortByVersion three_scripts, (fst ([EvQueryRow QueryGetCurrentVersion], at_version 1) @ ev, s2))
          \<and> apply_each ?D (to_apply three_scripts 1) [] ([EvQueryRow QueryGetCurrentVersion], at_version 1)
              = (r, (fst ([EvQueryRow QueryGetCurrentVersion], at_version 1) @ ev, s2))
          \<and> prefix (upgrade_calls ev) (map Version (to_apply three_scripts 1))
          \<and> (\<forall>log. r = Return (Inr log) \<longrightarrow>
                upgrade_calls ev = map Version (to_apply three_scripts 1)
                \<and> log = map (\<lambda>m. UpgradedToVersion (Version m)) (to_apply three_scripts 1))"
    by blast
  then have e: "\<exists>r ev s2.
          UpgradeToVersion ?D three_scripts 3 ([], at_version 1)
            = (r, sortByVersion three_scripts, ([EvQueryRow QueryGetCurrentVersion] @ ev, s2))
        \<and> prefix (upgrade_calls ev) [2, 3]"
    unfolding t by auto
  from T d have st: "sorted_wrt (<) (map Version (to_apply three_scripts 1))" by blast
  have h3: "CurrentVersion ?D ([], at_version 2)
     = (Inr 2, ([EvQueryRow QueryGetCurrentVersion], at_version 2))"
    by (simp add: store_simps)
  have h4: "(2::int) < 3" by simp
  have m: "0 < (2::int) \<and> 2 \<notin> Version ` set gapped_scripts"
    by (simp add: gapped_scripts_def)
  from UpgradeToVersion_runs_what_follows_the_current_version [OF h3 h4, of gapped_scripts] m
  have g: "UpgradeToVersion ?D gapped_scripts 3 ([], at_version 2)
     = (Return (Inl MissingCurrentMigration), sortByVersion gapped_scripts,
        ([EvQueryRow QueryGetCurrentVersion], at_version 2))"
    by blast
  show ?thesis by (intro conjI h1 h2 t e st h3 g)
qed

text \<open>
  The claim C1 as stated fails when an apply fails: on a store at version 0 with a record
  of version 1 whose upgrade action returns an error and a record of version 2, the records
  after the current position are those of versions 1 and 2, but the call ends after the
  first and the action of version 2 is never called.
\<close>

theorem UpgradeToVersion_stops_at_a_failed_action_counterexample:
  "fst (UpgradeToVersion (store_resource plain_scripts)
       [FunctionMigration 1 (Some (failing_action ''migrate failed'')) None, StringMigration 2 ''b'' []]
       2 ([], at_version 0)) = Return (Inl (ResourceError ''migrate failed''))
   \<and> upgrade_calls (fst (snd (snd (UpgradeToVersion (store_resource plain_scripts)
       [FunctionMigration 1 (Some (failing_action ''migrate failed'')) None, StringMigration 2 ''b'' []]
       2 ([], at_version 0))))) = [1]
   \<and> map Version (to_apply
       [FunctionMigration 1 (Some (failing_action ''migrate failed'')) None, StringMigration 2 ''b'' [] :: store Migration] 0)
       = [1, 2]"
  by (simp add: UpgradeToVersion_def CurrentVersion_def store_resource_def store_QueryRow_def
      at_version_def QueryGetCurrentVersion_def sortByVersion_def store_Begin_def int64_def
      failing_action_def store_Rollback_def to_apply_def)

section \<open>A failing upgrade action\<close>










section \<open>Discovery\<close>

lemmas parse_simps = parseNameInfo_def nameRegexp_def match_tail_def is_digit_def match_way_def
  match_ext_def ParseInt_def decimal_def digit_value_def


lemma update_new_key:
  "k \<notin> fst ` set al \<Longrightarrow> AList.update k v al = al @ [(k, v)]"
  by (induction al) auto

lemma append_entry_new:
  "k \<notin> fst ` set names \<Longrightarrow> append_entry names k info = names @ [(k, [info])]"
  by (simp add: append_entry_def update_new_key map_of_eq_None_iff [THEN iffD2])


lemma group_files_distinct_versions:
  assumes "\<forall>f \<in> set files. \<not> fi_IsDir f \<and> parseNameInfo d (fi_Name f) = Inr (Some (J f))"
    and "distinct (map (\<lambda>f. ni_version (J f)) files)"
    and "\<forall>f \<in> set files. ni_version (J f) \<notin> fst ` set acc"
  shows "group_files d files acc = Inr (acc @ map (\<lambda>f. (ni_version (J f), [J f])) files)"
  using assms
proof (induction files arbitrary: acc)
  case Nil
  then show ?case by simp
next
  case (Cons f files)
  have new: "append_entry acc (ni_version (J f)) (J f) = acc @ [(ni_version (J f), [J f])]"
    using Cons.prems(3) by (simp add: append_entry_new)
  have "group_files d files (acc @ [(ni_version (J f), [J f])])
          = Inr ((acc @ [(ni_version (J f), [J f])]) @ map (\<lambda>f. (ni_version (J f), [J f])) files)"
  proof (rule Cons.IH)
    show "\<forall>f \<in> set files. \<not> fi_IsDir f \<and> parseNameInfo d (fi_Name f) = Inr (Some (J f))"
      using Cons.prems(1) by simp
    show "distinct (map (\<lambda>f. ni_version (J f)) files)"
      using Cons.prems(2) by simp
    show "\<forall>f' \<in> set files. ni_version (J f') \<notin> fst ` set (acc @ [(ni_version (J f), [J f])])"
      using Cons.prems(2,3) by (force simp: image_iff)
  qed
  then show ?case using Cons.prems(1) new by simp
qed

lemma getFileMigration_single_up:
  assumes "ni_way i = ''up''"
    and "readFile mf (filepath_Join (ni_dir i) (ni_name i)) = Inr body"
  shows "getFileMigration mf [i] = Return (Inr (StringMigration (ni_version i) body []))"
  using assms by (simp add: getFileMigration_def)



lemma build_migrations_all_good:
  assumes "\<forall>names \<in> set gs. getFileMigration mf names = Return (Inr (F names))"
  shows "build_migrations mf gs acc = Return (Inr (acc @ map F gs))"
  using assms by (induction gs arbitrary: acc) auto






lemma sort_key_three:
  assumes "mset xs = {#m1, m2, m3#}"
    and "Version m1 < Version m2" and "Version m2 < Version m3"
  shows "sortByVersion xs = [m1, m2, m3]"
  unfolding sortByVersion_def
proof (rule properties_for_sort_key)
  show "mset [m1, m2, m3] = mset xs" using assms(1) by simp
  show "sorted (map Version [m1, m2, m3])" using assms(2,3) by simp
  fix k assume k: "k \<in> set [m1, m2, m3]"
  have "mset (filter (\<lambda>x. Version k = Version x) xs)
          = mset (filter (\<lambda>x. Version k = Version x) [m1, m2, m3])"
    using assms(1) by (simp only: mset_filter) simp
  moreover have "filter (\<lambda>x. Version k = Version x) [m1, m2, m3] = [k]"
    using k assms(2,3) by auto
  ultimately have "mset (filter (\<lambda>x. Version k = Version x) xs) = {#k#}" by simp
  then have "filter (\<lambda>x. Version k = Version x) xs = [k]" by (simp only: mset_single_iff)
  with \<open>filter (\<lambda>x. Version k = Version x) [m1, m2, m3] = [k]\<close>
  show "filter (\<lambda>x. Version k = Version x) [m1, m2, m3] = filter (\<lambda>x. Version k = Version x) xs"
    by simp
qed

lemma getMigrations_sorted:
  assumes "getMigrations range_order mf d = Return (Inr ms)"
  shows "sorted (map Version ms)"
  using assms
  by (auto simp: getMigrations_def sortByVersion_def split: sum.splits outcome.splits)




text \<open>
  Claim C8. For a source that lists exactly the plain files \<^verbatim>\<open>001_up.sql\<close>,
  \<^verbatim>\<open>002_up.sql\<close> and \<^verbatim>\<open>003_up.sql\<close>, in any order, all readable, discovery returns
  exactly three script-backed migrations of versions 1, 2 and 3 with the bodies read and an
  empty downgrade body, whatever the order in which the groups are visited. In general a
  list that discovery returns is sorted ascending by version.
\<close>

theorem three_up_scripts_are_three_sorted_migrations:
  fixes range_order :: "nameInfos \<Rightarrow> nameInfos"
  assumes "readDir mf d = Inr files"
    and "mset (map fi_Name files) = {#''001_up.sql'', ''002_up.sql'', ''003_up.sql''#}"
    and "\<forall>f \<in> set files. \<not> fi_IsDir f"
    and "readFile mf (filepath_Join d ''001_up.sql'') = Inr body1"
    and "readFile mf (filepath_Join d ''002_up.sql'') = Inr body2"
    and "readFile mf (filepath_Join d ''003_up.sql'') = Inr body3"
    and "\<forall>g. mset (range_order g) = mset g"
  shows "getMigrations range_order mf d
           = (Return (Inr [StringMigration 1 body1 [], StringMigration 2 body2 [],
                           StringMigration 3 body3 []]) :: (error + 's Migration list) outcome)
       \<and> (\<forall>ro mf' d' ms. getMigrations ro mf' d' = Return (Inr (ms :: 's Migration list))
             \<longrightarrow> sorted (map Version ms))"
proof (intro conjI allI impI)
  define V :: "string \<Rightarrow> int" where
    "V = (\<lambda>n. if n = ''001_up.sql'' then 1 else if n = ''002_up.sql'' then 2 else 3)"
  define B where
    "B = (\<lambda>n. if n = ''001_up.sql'' then body1 else if n = ''002_up.sql'' then body2 else body3)"
  define J :: "FileInfo \<Rightarrow> nameInfo" where
    "J = (\<lambda>f. \<lparr>ni_dir = d, ni_name = fi_Name f, ni_version = V (fi_Name f), ni_way = ''up'',
                ni_ext = ''sql''\<rparr>)"
  define F :: "nameInfo list \<Rightarrow> 's Migration" where
    "F = (\<lambda>names. StringMigration (ni_version (hd names)) (B (ni_name (hd names))) [])"
  have names: "set (map fi_Name files) = {''001_up.sql'', ''002_up.sql'', ''003_up.sql''}"
    using assms(2) by (metis set_mset_mset set_mset_add_mset_insert set_mset_empty)
  have dist: "distinct (map fi_Name files)"
    using assms(2) mset_eq_imp_distinct_iff [of "map fi_Name files" "[''001_up.sql'', ''002_up.sql'', ''003_up.sql'']"]
    by simp
  have parse: "parseNameInfo d (fi_Name f) = Inr (Some (J f))" if "f \<in> set files" for f
  proof -
    from that names have "fi_Name f \<in> {''001_up.sql'', ''002_up.sql'', ''003_up.sql''}" by auto
    then show ?thesis
      by (auto simp: J_def V_def parse_simps)
  qed
  have inj: "inj_on V {''001_up.sql'', ''002_up.sql'', ''003_up.sql''}"
    by (simp add: V_def inj_on_def)
  have "distinct (map V (map fi_Name files))"
    using dist inj names by (simp only: distinct_map)
  then have dv: "distinct (map (\<lambda>f. ni_version (J f)) files)"
    by (simp add: J_def comp_def)
  have g: "group_files d files [] = Inr ([] @ map (\<lambda>f. (ni_version (J f), [J f])) files)"
    by (rule group_files_distinct_versions) (use assms(3) parse dv in auto)
  define groups where "groups = map (\<lambda>f. (ni_version (J f), [J f])) files"
  have gb: "groupByVersion mf d = Inr groups"
    using g assms(1) by (simp add: groupByVersion_def groups_def)
  have perm: "mset (range_order groups) = mset groups" using assms(7) by simp
  have body: "readFile mf (filepath_Join d (fi_Name f)) = Inr (B (fi_Name f))" if "f \<in> set files" for f
  proof -
    from that names have "fi_Name f \<in> {''001_up.sql'', ''002_up.sql'', ''003_up.sql''}" by auto
    then show ?thesis using assms(4-6) by (auto simp: B_def)
  qed
  have good: "\<forall>names \<in> set (map snd (range_order groups)).
                 getFileMigration mf names = (Return (Inr (F names)) :: (error + 's Migration) outcome)"
  proof
    fix ns assume "ns \<in> set (map snd (range_order groups))"
    then have "ns \<in> snd ` set groups" using perm by (metis set_map mset_eq_setD)
    then obtain f where f: "f \<in> set files" "ns = [J f]" by (auto simp: groups_def)
    have "getFileMigration mf [J f]
            = (Return (Inr (StringMigration (ni_version (J f)) (B (fi_Name f)) [])) :: (error + 's Migration) outcome)"
      by (rule getFileMigration_single_up) (use body [OF f(1)] in \<open>simp_all add: J_def\<close>)
    then show "getFileMigration mf ns = (Return (Inr (F ns)) :: (error + 's Migration) outcome)"
      using f(2) by (simp add: F_def J_def)
  qed
  have bm: "build_migrations mf (map snd (range_order groups)) []
              = Return (Inr ([] @ map F (map snd (range_order groups))))"
    by (rule build_migrations_all_good [OF good])
  have "mset (map F (map snd (range_order groups))) = image_mset (F \<circ> snd) (mset (range_order groups))"
    by simp
  also have "\<dots> = image_mset (F \<circ> snd) (mset groups)" by (simp only: perm)
  also have "\<dots> = image_mset (\<lambda>n. StringMigration (V n) (B n) []) (mset (map fi_Name files))"
    by (simp add: groups_def F_def J_def comp_def multiset.map_comp)
  also have "\<dots> = {#StringMigration 1 body1 [], StringMigration 2 body2 [], StringMigration 3 body3 []#}"
    by (simp only: assms(2)) (simp add: V_def B_def)
  finally have "sortByVersion (map F (map snd (range_order groups)))
      = [StringMigration 1 body1 [], StringMigration 2 body2 [], StringMigration 3 body3 []]"
    by (rule sort_key_three) simp_all
  then show "getMigrations range_order mf d
           = (Return (Inr [StringMigration 1 body1 [], StringMigration 2 body2 [],
                           StringMigration 3 body3 []]) :: (error + 's Migration list) outcome)"
    using gb bm by (simp add: getMigrations_def)
next
  fix ro mf' d' and ms :: "'s Migration list"
  assume "getMigrations ro mf' d' = Return (Inr ms)"
  then show "sorted (map Version ms)" by (rule getMigrations_sorted)
qed

theorem three_up_scripts_are_three_sorted_migrations_witness:
  "readDir three_ups ''migrations''
     = Inr [\<lparr>fi_Name = ''003_up.sql'', fi_IsDir = False\<rparr>, \<lparr>fi_Name = ''001_up.sql'', fi_IsDir = False\<rparr>,
            \<lparr>fi_Name = ''002_up.sql'', fi_IsDir = False\<rparr>]
   \<and> getMigrations rev three_ups ''migrations''
     = (Return (Inr [StringMigration 1 ''a'' [], StringMigration 2 ''b'' [], StringMigration 3 ''c'' []])
          :: (error + store Migration list) outcome)"
proof -
  let ?files = "[\<lparr>fi_Name = ''003_up.sql'', fi_IsDir = False\<rparr>, \<lparr>fi_Name = ''001_up.sql'', fi_IsDir = False\<rparr>,
            \<lparr>fi_Name = ''002_up.sql'', fi_IsDir = False\<rparr>]"
  have h1: "readDir three_ups ''migrations'' = Inr ?files"
    by (simp add: three_ups_def directory_def)
  have h2: "mset (map fi_Name ?files) = {#''001_up.sql'', ''002_up.sql'', ''003_up.sql''#}"
    by simp
  have h3: "\<forall>f \<in> set ?files. \<not> fi_IsDir f" by simp
  have h4: "readFile three_ups (filepath_Join ''migrations'' ''001_up.sql'') = Inr ''a''"
    and h5: "readFile three_ups (filepath_Join ''migrations'' ''002_up.sql'') = Inr ''b''"
    and h6: "readFile three_ups (filepath_Join ''migrations'' ''003_up.sql'') = Inr ''c''"
    by (simp_all add: three_ups_def directory_def filepath_Join_def)
  have h7: "\<forall>g :: nameInfos. mset (rev g) = mset g" by simp
  from three_up_scripts_are_three_sorted_migrations [where range_order = rev, OF h1 h2 h3 h4 h5 h6 h7]
  have c: "getMigrations rev three_ups ''migrations''
     = (Return (Inr [StringMigration 1 ''a'' [], StringMigration 2 ''b'' [], StringMigration 3 ''c'' []])
          :: (error + store Migration list) outcome)"
    by blast
  show ?thesis by (intro conjI h1 c)
qed

section \<open>What the earlier revisions did\<close>

text \<open>
  The earlier \<^verbatim>\<open>QuerySetVersion\<close> updates a table named \<^verbatim>\<open>migration\<close>: on a store that
  holds the \<^verbatim>\<open>emigrate\<close> table only, the statement fails and the version is not written.
\<close>

theorem earlier_QuerySetVersion_misses_the_table:
  "setVersion_earlier (store_resource plain_scripts) 5
     ([EvBegin], \<lparr>committed = [(''emigrate'', [0])], working = Some [(''emigrate'', [0])]\<rparr>)
   = (Some (ResourceError ''no such table''),
      ([EvBegin, EvExec (UpdateVersion ''migration'' 5)],
       \<lparr>committed = [(''emigrate'', [0])], working = Some [(''emigrate'', [0])]\<rparr>))"
  by (simp add: setVersion_earlier_def QuerySetVersion_earlier_def store_simps)

text \<open>
  The earlier \<^verbatim>\<open>Upgrade\<close> took the number of records for its target: 1 for a single record
  of version 5.
\<close>

theorem earlier_Upgrade_target_is_the_length:
  "maxVersion_earlier [StringMigration 5 ''e'' [] :: store Migration] = 1
   \<and> highest_version [StringMigration 5 ''e'' [] :: store Migration] = 5"
  by (simp add: maxVersion_earlier_def highest_version_def)

text \<open>
  The earlier \<^verbatim>\<open>nameRegexp\<close> does not match \<^verbatim>\<open>001_up.sql\<close>; it asks for the text
  \<^verbatim>\<open>-Z]\<close> after the extension.
\<close>

theorem earlier_nameRegexp_rejects_sql_names:
  "nameRegexp_earlier ''001_up.sql'' = None
   \<and> nameRegexp_earlier ''001_up.sql-Z]'' = Some (''001'', ''up'', ''sql-Z]'')"
  by (simp add: nameRegexp_earlier_def match_ext_earlier_def match_way_def is_digit_def)

text \<open>
  The earlier \<^verbatim>\<open>Init\<close> begins a transaction before it reads the version: on a versioned
  store it returns success with that transaction still open, and on a store without the
  table it fails, its \<^verbatim>\<open>setVersion\<close> addressing the table \<^verbatim>\<open>migration\<close>.
\<close>

theorem earlier_Init_begins_first:
  "Init_earlier (store_resource plain_scripts) ([], at_version 3)
     = (None, ([EvBegin, EvQueryRow QueryGetCurrentVersion],
               \<lparr>committed = [(''emigrate'', [3])], working = Some [(''emigrate'', [3])]\<rparr>))
   \<and> fst (Init_earlier (store_resource plain_scripts) ([], fresh_store))
     = Some (ResourceError ''no such table'')"
  by (simp add: Init_earlier_def setVersion_earlier_def QuerySetVersion_earlier_def store_simps)

end
